theory Spec2Isabelle
  imports Complex_Main
begin

section \<open>Python values and exceptions\<close>

text \<open>
  The program is \<^verbatim>\<open>src/resumestate.py\<close> (Python 3: it uses f-strings). It recovers a
  failed Step Functions execution: it finds the state at which the execution failed in the
  reverse-ordered event history, adds a \<^verbatim>\<open>GoToState\<close> choice state to a copy of the
  state machine definition and starts an execution of the copy.

  Strings are \<^typ>\<open>string\<close>; Python's unbounded integers are \<^typ>\<open>int\<close>.
\<close>

subsection \<open>The execution history\<close>

text \<open>
  An event of \<^verbatim>\<open>get_execution_history\<close> is a dictionary. The keys \<^verbatim>\<open>id\<close>,
  \<^verbatim>\<open>previousEventId\<close> and \<^verbatim>\<open>type\<close> are read without any guard at lines 63, 67
  and 78 and are fields of the record; a key that an event may lack is an optional field,
  so that reading it where it is absent is the \<^verbatim>\<open>KeyError\<close> of the source. The
  details of a failure have the keys \<^verbatim>\<open>error\<close> and \<^verbatim>\<open>cause\<close> at most: with neither
  they are the empty dictionary, which line 50 takes for false.
\<close>

record failed_details =
  error :: "string option"
  cause :: "string option"

record entered_details =
  name :: "string option"
  input :: "string option"

record event =
  event_id :: int
  previousEventId :: int
  event_type :: string
  executionFailedEventDetails :: "failed_details option"
  stateEnteredEventDetails :: "entered_details option"

subsection \<open>Exceptions\<close>

text \<open>
  Every \<^verbatim>\<open>raise\<close> of the source and every exception of a built-in operation that the
  source applies is a constructor. The source raises the class \<^verbatim>\<open>Exception\<close> with a
  message throughout; the constructor stands for the message.
\<close>

datatype exn =
    NoFailedEvents
      \<comment> \<open>line 46: \<^verbatim>\<open>Exception('no failed events')\<close>\<close>
  | UnexpectedFailedEvent "event list"
      \<comment> \<open>line 51: \<^verbatim>\<open>Exception(f'unexpected failed event: {failed_event}')\<close>\<close>
  | CouldNotGetDefinition string
      \<comment> \<open>line 88: \<^verbatim>\<open>Exception(f'Could not get ASL definition of state machine: {cause}')\<close>\<close>
  | FailedToCreate string
      \<comment> \<open>line 112: \<^verbatim>\<open>Exception(f'Failed to create new state machine with GoToState: {e}')\<close>\<close>
  | FailedToStart string
      \<comment> \<open>line 122: \<^verbatim>\<open>Exception(f'Failed to start Execution: {e}')\<close>\<close>
  | ServiceError string
      \<comment> \<open>an exception of the service client that no handler of the source catches\<close>
  | JSONDecodeError
  | KeyError string
  | IndexError
  | TypeError

subsection \<open>Lists and strings\<close>

text \<open>
  Subscripts of a list. \<^verbatim>\<open>xs[i]\<close> with \<^verbatim>\<open>-len(xs) <= i < 0\<close> reads from the end;
  outside \<^verbatim>\<open>-len(xs) <= i < len(xs)\<close> the subscript raises \<^verbatim>\<open>IndexError\<close>.
  \<open>list_position\<close> is the position that a subscript denotes, if any.
\<close>

definition list_position :: "nat \<Rightarrow> int \<Rightarrow> nat option" where
  "list_position len i =
     (if 0 \<le> i \<and> i < int len then Some (nat i)
      else if i < 0 \<and> - i \<le> int len then Some (len - nat (- i))
      else None)"

definition py_index :: "'a list \<Rightarrow> int \<Rightarrow> exn + 'a" where
  "py_index xs i =
     (case list_position (length xs) i of
        None \<Rightarrow> Inl IndexError
      | Some p \<Rightarrow> Inr (xs ! p))"

text \<open>\<^verbatim>\<open>xs[i] = v\<close>.\<close>

definition py_setitem :: "'a list \<Rightarrow> int \<Rightarrow> 'a \<Rightarrow> exn + 'a list" where
  "py_setitem xs i v =
     (case list_position (length xs) i of
        None \<Rightarrow> Inl IndexError
      | Some p \<Rightarrow> Inr (xs[p := v]))"

text \<open>
  \<^verbatim>\<open>s.split(sep)\<close> for a separator of one character: the pieces between the
  occurrences of the separator, empty pieces kept; the result is never empty.
\<close>

fun split_sep :: "char \<Rightarrow> string \<Rightarrow> string list" where
  "split_sep sep [] = [[]]"
| "split_sep sep (c # cs) =
     (if c = sep then [] # split_sep sep cs
      else (case split_sep sep cs of
              [] \<Rightarrow> [[c]]
            | w # ws \<Rightarrow> (c # w) # ws))"

text \<open>\<^verbatim>\<open>sep.join(xs)\<close>.\<close>

fun join :: "string \<Rightarrow> string list \<Rightarrow> string" where
  "join sep [] = []"
| "join sep [x] = x"
| "join sep (x # y # ys) = x @ sep @ join sep (y # ys)"

text \<open>
  \<^verbatim>\<open>str.isspace\<close> and \<^verbatim>\<open>str.isdigit\<close> on the code points below 256, which is what a
  \<^typ>\<open>char\<close> holds.
\<close>

definition isspace :: "char \<Rightarrow> bool" where
  "isspace c = (of_char c \<in> {9, 10, 11, 12, 13, 28, 29, 30, 31, 32, 133, 160 :: nat})"

definition isdigit :: "char \<Rightarrow> bool" where
  "isdigit c = ((48 \<le> (of_char c :: nat) \<and> (of_char c :: nat) \<le> 57)
                \<or> of_char c \<in> {178, 179, 185 :: nat})"

text \<open>
  \<^verbatim>\<open>s.split()\<close> without a separator: the maximal runs of characters that are not
  whitespace; no empty piece.
\<close>

fun split_ws_acc :: "string \<Rightarrow> string \<Rightarrow> string list" where
  "split_ws_acc acc [] = (if acc = [] then [] else [rev acc])"
| "split_ws_acc acc (c # cs) =
     (if isspace c then (if acc = [] then split_ws_acc [] cs else rev acc # split_ws_acc [] cs)
      else split_ws_acc (c # acc) cs)"

definition split_ws :: "string \<Rightarrow> string list" where
  "split_ws s = split_ws_acc [] s"

section \<open>The state machine identifier (lines 27-30)\<close>

definition get_state_machine_arn_from_execution_arn :: "string \<Rightarrow> exn + string" where
  "get_state_machine_arn_from_execution_arn execution_arn =
     (let sm_arn = butlast (split_sep CHR '':'' execution_arn)
      in case py_setitem sm_arn 5 ''stateMachine'' of
           Inl e \<Rightarrow> Inl e
         | Inr sm_arn' \<Rightarrow> Inr (join '':'' sm_arn'))"

section \<open>The failure locator (lines 33-78)\<close>

text \<open>
  Lines 70-71 and 74-75 (and 60-61 after the subscript): the name and the input of an
  event's \<^verbatim>\<open>stateEnteredEventDetails\<close>.
\<close>

definition state_entered :: "event \<Rightarrow> exn + string \<times> string" where
  "state_entered current_event =
     (case stateEnteredEventDetails current_event of
        None \<Rightarrow> Inl (KeyError ''stateEnteredEventDetails'')
      | Some details \<Rightarrow>
          (case name details of
             None \<Rightarrow> Inl (KeyError ''name'')
           | Some failed_state \<Rightarrow>
               (case input details of
                  None \<Rightarrow> Inl (KeyError ''input'')
                | Some failed_input \<Rightarrow> Inr (failed_state, failed_input))))"

text \<open>
  What the \<^verbatim>\<open>while\<close> loop of lines 64-78 ends with on one page: an exception, a
  \<^verbatim>\<open>return\<close> of a name and an input, or the loop condition failing, with the flag
  \<^verbatim>\<open>failed_at_parallel_state\<close> as the loop leaves it.
\<close>

datatype walk_result = Raised exn | Returned string string | Exhausted bool

definition returned :: "exn + string \<times> string \<Rightarrow> walk_result" where
  "returned r = (case r of Inl e \<Rightarrow> Raised e | Inr (n, i) \<Rightarrow> Returned n i)"

text \<open>
  The loop of lines 64-78. Nothing in the source bounds the number of iterations (an event
  whose \<^verbatim>\<open>previousEventId\<close> is its own id is visited forever), so the loop is a partial
  function and \<open>None\<close> is the loop that never ends.
\<close>

partial_function (option) walk :: "event list \<Rightarrow> bool \<Rightarrow> int \<Rightarrow> walk_result option" where
  "walk failed_event failed_at_parallel_state current_event_id =
     (if current_event_id = 0 then Some (Exhausted failed_at_parallel_state)
      else
        (case py_index failed_event (-1 * current_event_id) of
           Inl e \<Rightarrow> Some (Raised e)
         | Inr current_event \<Rightarrow>
             (let flag = (if event_type current_event = ''ParallelStateFailed'' then True
                          else failed_at_parallel_state)
              in if event_type current_event = ''TaskStateEntered'' \<and> \<not> flag
                   then Some (returned (state_entered current_event))
                 else if event_type current_event = ''ParallelStateEntered'' \<and> flag
                   then Some (returned (state_entered current_event))
                 else walk failed_event flag (previousEventId current_event))))"

declare walk.simps [code]

text \<open>
  Line 59, \<^verbatim>\<open>int(filter(str.isdigit, str(token)))\<close>. In Python 3 \<^verbatim>\<open>filter\<close> returns a
  lazy filter object, not a string, and \<^verbatim>\<open>int\<close> accepts a string, bytes or a number: applied
  to a filter object it raises \<^verbatim>\<open>TypeError\<close> without reading any character.
\<close>

datatype filter_object = FilterObject "char \<Rightarrow> bool" string

definition py_filter :: "(char \<Rightarrow> bool) \<Rightarrow> string \<Rightarrow> filter_object" where
  "py_filter p s = FilterObject p s"

definition py_int :: "filter_object \<Rightarrow> exn + int" where
  "py_int obj = (case obj of FilterObject p s \<Rightarrow> Inl TypeError)"

text \<open>Lines 60-62: the state entered at the event that the subscript \<^verbatim>\<open>-1 * failed_id\<close> denotes.\<close>

definition failed_state_at :: "event list \<Rightarrow> int \<Rightarrow> exn + string \<times> string" where
  "failed_state_at failed_event failed_id =
     (case py_index failed_event (-1 * failed_id) of
        Inl e \<Rightarrow> Inl e
      | Inr ev \<Rightarrow> state_entered ev)"

text \<open>Lines 59-62, the branch of the error \<^verbatim>\<open>States.Runtime\<close>.\<close>

definition runtime_failure :: "event list \<Rightarrow> failed_details \<Rightarrow> exn + string \<times> string" where
  "runtime_failure failed_event failed_event_details =
     (case cause failed_event_details of
        None \<Rightarrow> Inl (KeyError ''cause'')
      | Some c \<Rightarrow>
          (case py_index (split_ws c) 13 of
             Inl e \<Rightarrow> Inl e
           | Inr token \<Rightarrow>
               (case py_int (py_filter isdigit token) of
                  Inl e \<Rightarrow> Inl e
                | Inr failed_id \<Rightarrow> failed_state_at failed_event failed_id)))"

text \<open>
  The \<^verbatim>\<open>for\<close> loop of lines 43-78 over the pages that \<^verbatim>\<open>paginate_execution\<close> yields.
  A page is \<open>Inr events\<close>; \<open>Inl msg\<close> is the service client raising while the generator
  fetches that page, which happens in the \<^verbatim>\<open>for\<close> statement and so outside the
  \<^verbatim>\<open>try\<close> of lines 37-41 (calling a generator function runs none of its body).
  The paginator yields the response of its first request before it looks for a
  continuation token, so a fetched history is never the empty list of pages; the first
  equation is what the \<^verbatim>\<open>for\<close> statement does when the pages run out.
  \<^verbatim>\<open>failed_at_parallel_state\<close> is set once, at line 35, and is carried from page to page.
  The result \<open>Inr None\<close> is the function ending without a \<^verbatim>\<open>return\<close>, that is
  returning \<^verbatim>\<open>None\<close>; the outer \<open>None\<close> is the walk that never ends.
\<close>

fun for_failed_events ::
  "bool \<Rightarrow> (string + event list) list \<Rightarrow> (exn + (string \<times> string) option) option" where
  "for_failed_events failed_at_parallel_state [] = Some (Inr None)"
| "for_failed_events failed_at_parallel_state (Inl msg # rest) = Some (Inl (ServiceError msg))"
| "for_failed_events failed_at_parallel_state (Inr [] # rest) = Some (Inl NoFailedEvents)"
| "for_failed_events failed_at_parallel_state (Inr (first # others) # rest) =
     (let failed_event = first # others in
      case executionFailedEventDetails first of
        None \<Rightarrow> Some (Inl (KeyError ''executionFailedEventDetails''))
      | Some failed_event_details \<Rightarrow>
          if error failed_event_details = None \<and> cause failed_event_details = None
            then Some (Inl (UnexpectedFailedEvent failed_event))
          else
            (case error failed_event_details of
               None \<Rightarrow> Some (Inl (KeyError ''error''))
             | Some tag \<Rightarrow>
                 if tag = ''States.Runtime''
                   then Some (map_sum id Some (runtime_failure failed_event failed_event_details))
                 else
                   (case walk failed_event failed_at_parallel_state (event_id first) of
                      None \<Rightarrow> None
                    | Some (Raised e) \<Rightarrow> Some (Inl e)
                    | Some (Returned failed_state failed_input) \<Rightarrow>
                        Some (Inr (Some (failed_state, failed_input)))
                    | Some (Exhausted flag) \<Rightarrow> for_failed_events flag rest)))"

definition parse_failure_history ::
  "(string + event list) list \<Rightarrow> (exn + (string \<times> string) option) option" where
  "parse_failure_history failed_events = for_failed_events False failed_events"

subsection \<open>Well-formed pages and the order of the backward walk\<close>

text \<open>
  The notions in which the properties of the locator are stated. In a page that holds a
  whole history newest first, the event with id \<open>i\<close> is at position
  \<open>length page - i\<close>, which is where the subscript \<^verbatim>\<open>-1 * i\<close> of line 66 reads.
\<close>

definition ids_by_position :: "event list \<Rightarrow> bool" where
  "ids_by_position page = (map event_id page = map int (rev [1 ..< Suc (length page)]))"

definition links_decrease :: "event list \<Rightarrow> bool" where
  "links_decrease page =
     list_all (\<lambda>e. 0 \<le> previousEventId e \<and> previousEventId e < event_id e) page"

definition failure_marker :: "event \<Rightarrow> bool" where
  "failure_marker e =
     (case executionFailedEventDetails e of
        None \<Rightarrow> False
      | Some details \<Rightarrow>
          (case error details of None \<Rightarrow> False | Some tag \<Rightarrow> tag \<noteq> ''States.Runtime''))"

definition well_formed_page :: "event list \<Rightarrow> bool" where
  "well_formed_page page =
     (page \<noteq> [] \<and> failure_marker (hd page) \<and> ids_by_position page \<and> links_decrease page)"

text \<open>
  The events that following \<^verbatim>\<open>previousEventId\<close> from the id \<open>i\<close> down to 0 visits, in
  the order of the visit, whatever their types; at most \<open>fuel\<close> of them.
\<close>

fun backward_walk :: "event list \<Rightarrow> nat \<Rightarrow> int \<Rightarrow> event list" where
  "backward_walk page 0 i = []"
| "backward_walk page (Suc fuel) i =
     (if i = 0 then []
      else (case py_index page (- i) of
              Inl _ \<Rightarrow> []
            | Inr e \<Rightarrow> e # backward_walk page fuel (previousEventId e)))"

definition walk_order :: "event list \<Rightarrow> event list" where
  "walk_order page = backward_walk page (length page) (event_id (hd page))"

definition is_type :: "string \<Rightarrow> event \<Rightarrow> bool" where
  "is_type t e = (event_type e = t)"

text \<open>The body of the loop of lines 64-78 along a given list of visited events.\<close>

fun scan_visited :: "bool \<Rightarrow> event list \<Rightarrow> walk_result" where
  "scan_visited failed_at_parallel_state [] = Exhausted failed_at_parallel_state"
| "scan_visited failed_at_parallel_state (current_event # earlier) =
     (let flag = (if event_type current_event = ''ParallelStateFailed'' then True
                  else failed_at_parallel_state)
      in if event_type current_event = ''TaskStateEntered'' \<and> \<not> flag
           then returned (state_entered current_event)
         else if event_type current_event = ''ParallelStateEntered'' \<and> flag
           then returned (state_entered current_event)
         else scan_visited flag earlier)"

text \<open>
  The visited \<^verbatim>\<open>TaskStateEntered\<close> events that no \<^verbatim>\<open>ParallelStateFailed\<close> event
  precedes in the order of the visit, and the part of the visit from the first
  \<^verbatim>\<open>ParallelStateFailed\<close> event on.
\<close>

definition qualifying_tasks :: "event list \<Rightarrow> event list" where
  "qualifying_tasks visited =
     filter (is_type ''TaskStateEntered'')
       (takeWhile (\<lambda>e. \<not> is_type ''ParallelStateFailed'' e) visited)"

definition after_parallel_failure :: "event list \<Rightarrow> event list" where
  "after_parallel_failure visited =
     dropWhile (\<lambda>e. \<not> is_type ''ParallelStateFailed'' e) visited"

subsection \<open>Example histories\<close>

text \<open>Events without details, state-entered events and the failure marker.\<close>

definition history_event :: "int \<Rightarrow> int \<Rightarrow> string \<Rightarrow> event" where
  "history_event i p t =
     \<lparr>event_id = i, previousEventId = p, event_type = t,
      executionFailedEventDetails = None, stateEnteredEventDetails = None\<rparr>"

definition entered_event :: "int \<Rightarrow> int \<Rightarrow> string \<Rightarrow> string \<Rightarrow> string \<Rightarrow> event" where
  "entered_event i p t n inp =
     \<lparr>event_id = i, previousEventId = p, event_type = t,
      executionFailedEventDetails = None,
      stateEnteredEventDetails = Some \<lparr>name = Some n, input = Some inp\<rparr>\<rparr>"

definition failed_event_of :: "int \<Rightarrow> int \<Rightarrow> string \<Rightarrow> string \<Rightarrow> event" where
  "failed_event_of i p tag c =
     \<lparr>event_id = i, previousEventId = p, event_type = ''ExecutionFailed'',
      executionFailedEventDetails = Some \<lparr>error = Some tag, cause = Some c\<rparr>,
      stateEnteredEventDetails = None\<rparr>"

text \<open>A task that failed; a task that failed inside a parallel state; no state entered at all.\<close>

definition task_page :: "event list" where
  "task_page =
     [failed_event_of 5 4 ''States.TaskFailed'' ''boom'',
      history_event 4 3 ''TaskFailed'',
      history_event 3 2 ''TaskScheduled'',
      entered_event 2 1 ''TaskStateEntered'' ''Extract'' ''{}'',
      history_event 1 0 ''ExecutionStarted'']"

definition parallel_page :: "event list" where
  "parallel_page =
     [failed_event_of 7 6 ''States.TaskFailed'' ''boom'',
      history_event 6 5 ''ParallelStateFailed'',
      history_event 5 4 ''TaskFailed'',
      entered_event 4 3 ''TaskStateEntered'' ''Inner'' ''{\"branch\": 1}'',
      history_event 3 2 ''ParallelStateStarted'',
      entered_event 2 1 ''ParallelStateEntered'' ''Fanout'' ''{\"all\": true}'',
      history_event 1 0 ''ExecutionStarted'']"

definition bare_page :: "event list" where
  "bare_page =
     [failed_event_of 2 1 ''States.Timeout'' ''late'',
      history_event 1 0 ''ExecutionStarted'']"

text \<open>A runtime error, with the cause in the wording of the service.\<close>

definition runtime_cause :: string where
  "runtime_cause = ''An error occurred while executing the state 'Load' (entered at the event id #4). The function is in another region.''"

definition runtime_page :: "event list" where
  "runtime_page =
     [failed_event_of 6 5 ''States.Runtime'' runtime_cause,
      history_event 5 4 ''TaskStateExited'',
      entered_event 4 3 ''TaskStateEntered'' ''Load'' ''{\"n\": 2}'',
      history_event 3 2 ''PassStateExited'',
      entered_event 2 1 ''PassStateEntered'' ''Prepare'' ''{\"n\": 1}'',
      history_event 1 0 ''ExecutionStarted'']"

section \<open>The resume graph builder (lines 81-113)\<close>

subsection \<open>JSON values\<close>

text \<open>
  What \<^verbatim>\<open>json.loads\<close> returns: \<^verbatim>\<open>None\<close>, a bool, an int, a float, a str, a list or a
  dict. A dict keeps its keys in the order of insertion, so it is an association list;
  the first pair with a key is the binding of the key.
\<close>

datatype json =
    JNull
  | JBool bool
  | JInt int
  | JFloat real
  | JStr string
  | JList "json list"
  | JObj "(string \<times> json) list"

text \<open>
  \<^verbatim>\<open>d[k] = v\<close> on a dict: the value of a key that is present is replaced where the key
  stands, a new key goes to the end.
\<close>

fun dict_set :: "(string \<times> 'v) list \<Rightarrow> string \<Rightarrow> 'v \<Rightarrow> (string \<times> 'v) list" where
  "dict_set [] k v = [(k, v)]"
| "dict_set ((k', v') # d) k v =
     (if k' = k then (k', v) # d else (k', v') # dict_set d k v)"

text \<open>
  \<^verbatim>\<open>obj[k]\<close> and \<^verbatim>\<open>obj[k] = v\<close> with a string \<open>k\<close>: on a dict a lookup (a missing key
  raises \<^verbatim>\<open>KeyError\<close>) and an update; on every other value of the type a
  \<^verbatim>\<open>TypeError\<close> (a list or a string takes integer subscripts only, the others none).
\<close>

fun getitem :: "json \<Rightarrow> string \<Rightarrow> exn + json" where
  "getitem (JObj d) k = (case map_of d k of None \<Rightarrow> Inl (KeyError k) | Some v \<Rightarrow> Inr v)"
| "getitem _ k = Inl TypeError"

fun setitem :: "json \<Rightarrow> string \<Rightarrow> json \<Rightarrow> exn + json" where
  "setitem (JObj d) k v = Inr (JObj (dict_set d k v))"
| "setitem _ k v = Inl TypeError"

text \<open>\<^verbatim>\<open>obj[i]\<close> with an integer \<open>i\<close>, on a list.\<close>

fun getindex :: "json \<Rightarrow> int \<Rightarrow> exn + json" where
  "getindex (JList xs) i = py_index xs i"
| "getindex _ i = Inl TypeError"

text \<open>Sequencing of statements that may raise.\<close>

definition and_then :: "exn + 'a \<Rightarrow> ('a \<Rightarrow> exn + 'b) \<Rightarrow> exn + 'b" where
  "and_then r f = (case r of Inl e \<Rightarrow> Inl e | Inr x \<Rightarrow> f x)"

subsection \<open>The mutation of the definition (lines 94-103)\<close>

text \<open>Lines 95-99.\<close>

definition go_to_state :: "json \<Rightarrow> string \<Rightarrow> json" where
  "go_to_state original_start_at failed_state_name =
     JObj [(''Type'', JStr ''Choice''),
           (''Choices'', JList [JObj [(''Variable'', JStr ''$.resuming''),
                                      (''BooleanEquals'', JBool False),
                                      (''Next'', original_start_at)]]),
           (''Default'', JStr failed_state_name)]"

text \<open>
  Lines 94-103 on the parsed definition. Line 101 mutates the dict that
  \<^verbatim>\<open>state_machine['States']\<close> refers to; with values instead of references the mutated
  dict is stored back under the key, which is present and so keeps its place.
\<close>

definition add_go_to_state :: "string \<Rightarrow> json \<Rightarrow> exn + json" where
  "add_go_to_state failed_state_name state_machine =
     and_then (getitem state_machine ''StartAt'') (\<lambda>original_start_at.
     and_then (getitem state_machine ''States'') (\<lambda>states.
     and_then (setitem states ''GoToState'' (go_to_state original_start_at failed_state_name))
       (\<lambda>states'.
     and_then (setitem state_machine ''States'' states') (\<lambda>state_machine'.
     setitem state_machine' ''StartAt'' (JStr ''GoToState'')))))"

text \<open>
  The \<^verbatim>\<open>Next\<close> of the single choice of the injected state of a definition:
  \<^verbatim>\<open>d['States']['GoToState']['Choices'][0]['Next']\<close>.
\<close>

definition injected_next :: "json \<Rightarrow> exn + json" where
  "injected_next d =
     and_then (getitem d ''States'') (\<lambda>states.
     and_then (getitem states ''GoToState'') (\<lambda>go_to.
     and_then (getitem go_to ''Choices'') (\<lambda>choices.
     and_then (getindex choices 0) (\<lambda>choice.
     getitem choice ''Next''))))"

subsection \<open>The service client\<close>

text \<open>
  The Step Functions client is outside the program. A call is recorded in a log of
  requests; what the service answers is a parameter: \<open>Inl msg\<close> is the client raising an
  exception whose text is \<open>msg\<close>. \<^verbatim>\<open>json.loads\<close> and \<^verbatim>\<open>json.dumps\<close> are parameters as
  well, as is \<^verbatim>\<open>date_time\<close>, which line 10 computes when the module is loaded.
\<close>

datatype request =
    DescribeStateMachine string
  | CreateStateMachine string string string
  | StartExecution string string

record describe_response =
  roleArn :: string
  definition_text :: string
  machine_name :: string

record create_response =
  stateMachineArn :: string

record client =
  describe_state_machine :: "string \<Rightarrow> string + describe_response"
  create_state_machine :: "string \<Rightarrow> string \<Rightarrow> string \<Rightarrow> string + create_response"
  start_execution :: "string \<Rightarrow> string \<Rightarrow> string + string"

record json_module =
  loads :: "string \<Rightarrow> exn + json"
  dumps :: "json \<Rightarrow> string"

definition attach_go_to_state ::
  "client \<Rightarrow> json_module \<Rightarrow> string \<Rightarrow> string \<Rightarrow> string \<Rightarrow> request list
   \<Rightarrow> (exn + create_response) \<times> request list" where
  "attach_go_to_state client json date_time failed_state_name state_machine_arn sent =
     (let sent1 = sent @ [DescribeStateMachine state_machine_arn] in
      case describe_state_machine client state_machine_arn of
        Inl msg \<Rightarrow> (Inl (CouldNotGetDefinition msg), sent1)
      | Inr response \<Rightarrow>
          (let role_arn = roleArn response in
           case loads json (definition_text response) of
             Inl e \<Rightarrow> (Inl e, sent1)
           | Inr state_machine \<Rightarrow>
               (let new_name = machine_name response @ ''-resumeState-'' @ date_time in
                case add_go_to_state failed_state_name state_machine of
                  Inl e \<Rightarrow> (Inl e, sent1)
                | Inr state_machine' \<Rightarrow>
                    (let document = dumps json state_machine';
                         sent2 = sent1 @ [CreateStateMachine new_name document role_arn]
                     in case create_state_machine client new_name document role_arn of
                          Inl e \<Rightarrow> (Inl (FailedToCreate e), sent2)
                        | Inr created \<Rightarrow> (Inr created, sent2)))))"

section \<open>The execution trigger (lines 115-122)\<close>

text \<open>
  The function has no \<^verbatim>\<open>return\<close>: on success it returns \<^verbatim>\<open>None\<close>, which is \<open>()\<close>.
\<close>

definition start_new_state_machine_execution ::
  "client \<Rightarrow> string \<Rightarrow> request list \<Rightarrow> (exn + unit) \<times> request list" where
  "start_new_state_machine_execution client new_machine_arn sent =
     (let sent1 = sent @ [StartExecution new_machine_arn ''{\"resuming\": true}''] in
      case start_execution client new_machine_arn ''{\"resuming\": true}'' of
        Inl e \<Rightarrow> (Inl (FailedToStart e), sent1)
      | Inr response \<Rightarrow> (Inr (), sent1))"

subsection \<open>Example definitions and clients\<close>

text \<open>A definition that an earlier run of the builder produced: it starts at \<^verbatim>\<open>GoToState\<close>.\<close>

definition pass_state :: "string \<Rightarrow> json" where
  "pass_state target = JObj [(''Type'', JStr ''Pass''), (''Next'', JStr target)]"

definition resumed_definition :: json where
  "resumed_definition =
     JObj [(''StartAt'', JStr ''GoToState''),
           (''States'',
            JObj [(''A'', pass_state ''B''),
                  (''B'', JObj [(''Type'', JStr ''Succeed'')]),
                  (''GoToState'', go_to_state (JStr ''A'') ''B'')])]"

definition plain_definition :: json where
  "plain_definition =
     JObj [(''StartAt'', JStr ''A''),
           (''States'',
            JObj [(''A'', pass_state ''B''),
                  (''B'', JObj [(''Type'', JStr ''Succeed'')])])]"

definition refusing_client :: client where
  "refusing_client =
     \<lparr>describe_state_machine = (\<lambda>arn. Inl ''AccessDenied''),
      create_state_machine = (\<lambda>new_name document role_arn. Inl ''AccessDenied''),
      start_execution = (\<lambda>arn inp. Inl ''AccessDenied'')\<rparr>"

section \<open>Theorems\<close>

text \<open>The unfolding rules of the example events and of well-formedness.\<close>

lemmas example_defs = history_event_def entered_event_def failed_event_of_def

lemmas page_defs = well_formed_page_def failure_marker_def ids_by_position_def links_decrease_def

subsection \<open>The state machine identifier\<close>

text \<open>
  C8. For the execution identifier
  \<^verbatim>\<open>arn:aws:states:us-east-1:123:execution:MyMachine:exec1\<close> the derived state machine
  identifier is \<^verbatim>\<open>arn:aws:states:us-east-1:123:stateMachine:MyMachine\<close>: the last
  component between colons is dropped and the sixth is replaced by \<^verbatim>\<open>stateMachine\<close>.
\<close>

theorem state_machine_arn_example:
  "get_state_machine_arn_from_execution_arn
     ''arn:aws:states:us-east-1:123:execution:MyMachine:exec1''
   = Inr ''arn:aws:states:us-east-1:123:stateMachine:MyMachine''"
  by (simp add: get_state_machine_arn_from_execution_arn_def py_setitem_def list_position_def)

subsection \<open>The loop on a well-formed page\<close>

text \<open>
  On a page with the ids by position and decreasing links the loop of lines 64-78 ends:
  it is the scan of the events that the links visit.
\<close>

lemma id_at_position:
  assumes "ids_by_position page" and "p < length page"
  shows "event_id (page ! p) = int (length page - p)"
proof -
  have "event_id (page ! p) = map event_id page ! p"
    using assms(2) by simp
  also have "\<dots> = map int (rev [1 ..< Suc (length page)]) ! p"
    using assms(1) by (simp add: ids_by_position_def)
  also have "\<dots> = int (rev [1 ..< Suc (length page)] ! p)"
    using assms(2) by (simp del: upt_Suc)
  also have "rev [1 ..< Suc (length page)] ! p = length page - p"
    using assms(2) by (simp add: rev_nth del: upt_Suc)
  finally show ?thesis .
qed

lemma index_by_id:
  assumes "0 < i" and "i \<le> int (length page)"
  shows "py_index page (- i) = Inr (page ! (length page - nat i))"
  using assms by (simp add: py_index_def list_position_def nat_minus_as_int)

lemma link_at_position:
  assumes "links_decrease page" and "p < length page"
  shows "0 \<le> previousEventId (page ! p) \<and> previousEventId (page ! p) < event_id (page ! p)"
  using assms by (simp add: links_decrease_def list_all_length)

lemma walk_scan:
  assumes ids: "ids_by_position page" and links: "links_decrease page"
  shows "0 \<le> i \<Longrightarrow> i \<le> int (length page) \<Longrightarrow> nat i \<le> fuel \<Longrightarrow>
         walk page flag i = Some (scan_visited flag (backward_walk page fuel i))"
proof (induction fuel arbitrary: i flag)
  case 0
  then have "i = 0" by simp
  then show ?case by (simp add: walk.simps)
next
  case (Suc fuel)
  show ?case
  proof (cases "i = 0")
    case True
    then show ?thesis by (simp add: walk.simps)
  next
    case False
    with Suc.prems have pos: "0 < i" by simp
    define p where "p = length page - nat i"
    define e where "e = page ! p"
    have p_lt: "p < length page"
      using pos Suc.prems(2) by (simp add: p_def)
    have idx: "py_index page (- i) = Inr e"
      using index_by_id [OF pos Suc.prems(2)] by (simp add: e_def p_def)
    have "event_id e = int (length page - p)"
      using id_at_position [OF ids p_lt] by (simp add: e_def)
    then have id_e: "event_id e = i"
      using pos Suc.prems(2) by (simp add: p_def)
    have link: "0 \<le> previousEventId e \<and> previousEventId e < i"
      using link_at_position [OF links p_lt] id_e by (simp add: e_def)
    have ih: "walk page b (previousEventId e)
              = Some (scan_visited b (backward_walk page fuel (previousEventId e)))" for b
      using link Suc.prems by (intro Suc.IH) auto
    show ?thesis
      using False idx ih
      by (subst walk.simps) (auto simp: Let_def)
  qed
qed

lemma walk_page:
  assumes "well_formed_page page"
  shows "walk page flag (event_id (hd page)) = Some (scan_visited flag (walk_order page))"
proof -
  from assms have ne: "page \<noteq> []" and ids: "ids_by_position page" and links: "links_decrease page"
    by (simp_all add: well_formed_page_def)
  have "event_id (page ! 0) = int (length page - 0)"
    using ne by (intro id_at_position [OF ids]) simp
  then have hd_id: "event_id (hd page) = int (length page)"
    using ne by (simp add: hd_conv_nth)
  show ?thesis
    unfolding walk_order_def
    by (rule walk_scan [OF ids links]) (simp_all add: hd_id)
qed

lemma first_page:
  assumes wf: "well_formed_page page"
  shows "parse_failure_history (Inr page # rest) =
           (case scan_visited False (walk_order page) of
              Raised e \<Rightarrow> Some (Inl e)
            | Returned n i \<Rightarrow> Some (Inr (Some (n, i)))
            | Exhausted flag \<Rightarrow> for_failed_events flag rest)"
proof -
  from wf obtain first others where page: "page = first # others"
    by (cases page) (simp_all add: well_formed_page_def)
  from wf page obtain details tag where
    d: "executionFailedEventDetails first = Some details" and
    t: "error details = Some tag" "tag \<noteq> ''States.Runtime''"
    by (auto simp: well_formed_page_def failure_marker_def split: option.splits)
  have w: "walk (first # others) False (event_id first)
           = Some (scan_visited False (walk_order page))"
    using walk_page [OF wf, of False] by (simp add: page)
  show ?thesis
    unfolding parse_failure_history_def page
    using d t w by (simp add: page split: walk_result.splits)
qed

subsection \<open>What the scan ends with\<close>

lemma scan_unique_task:
  "qualifying_tasks w = [t] \<Longrightarrow> scan_visited False w = returned (state_entered t)"
  unfolding qualifying_tasks_def
  by (induction w) (auto simp: is_type_def split: if_splits)

lemma scan_inside_parallel:
  "dropWhile (\<lambda>e. \<not> is_type ''ParallelStateEntered'' e) w = p # before \<Longrightarrow>
   scan_visited True w = returned (state_entered p)"
  by (induction w) (auto simp: is_type_def split: if_splits)

lemma scan_reaches_parallel_failure:
  "qualifying_tasks w = [] \<Longrightarrow> after_parallel_failure w = f # after \<Longrightarrow>
   scan_visited False w = scan_visited True after"
  unfolding qualifying_tasks_def after_parallel_failure_def
  by (induction w) (auto simp: is_type_def split: if_splits)

lemma scan_no_parallel_entered:
  "filter (is_type ''ParallelStateEntered'') w = [] \<Longrightarrow> scan_visited True w = Exhausted True"
  by (induction w) (auto simp: is_type_def split: if_splits)

lemma scan_exhausted:
  "qualifying_tasks w = [] \<Longrightarrow>
   filter (is_type ''ParallelStateEntered'') (after_parallel_failure w) = [] \<Longrightarrow>
   scan_visited False w = Exhausted (list_ex (is_type ''ParallelStateFailed'') w)"
  unfolding qualifying_tasks_def after_parallel_failure_def
  by (induction w) (auto simp: is_type_def scan_no_parallel_entered split: if_splits)

subsection \<open>The general case of the locator\<close>

text \<open>
  C1. On a non-empty well-formed page (the first event carries failure details with an error
  tag other than \<^verbatim>\<open>States.Runtime\<close>, the event with id \<open>i\<close> is at position
  \<open>length page - i\<close>, the links decrease towards 0) whose backward walk visits exactly one
  \<^verbatim>\<open>TaskStateEntered\<close> event \<open>t\<close> that no \<^verbatim>\<open>ParallelStateFailed\<close> event precedes,
  the locator returns the name and the input of \<open>t\<close>, whatever pages follow.
\<close>

theorem locator_returns_unique_task:
  assumes "well_formed_page page"
    and "qualifying_tasks (walk_order page) = [t]"
    and "stateEnteredEventDetails t = Some \<lparr>name = Some n, input = Some inp\<rparr>"
  shows "parse_failure_history (Inr page # rest) = Some (Inr (Some (n, inp)))"
proof -
  have "scan_visited False (walk_order page) = Returned n inp"
    using scan_unique_task [OF assms(2)] assms(3)
    by (simp add: returned_def state_entered_def)
  then show ?thesis
    using first_page [OF assms(1), of rest] by simp
qed

theorem locator_returns_unique_task_witness:
  "well_formed_page task_page
   \<and> qualifying_tasks (walk_order task_page) = [task_page ! 3]
   \<and> parse_failure_history [Inr task_page] = Some (Inr (Some (''Extract'', ''{}'')))"
proof -
  have wf: "well_formed_page task_page"
    by (simp add: task_page_def example_defs page_defs)
  have q: "qualifying_tasks (walk_order task_page) = [task_page ! 3]"
    by (simp add: qualifying_tasks_def walk_order_def task_page_def example_defs
        py_index_def list_position_def is_type_def)
  have d: "stateEnteredEventDetails (task_page ! 3) = Some \<lparr>name = Some ''Extract'', input = Some ''{}''\<rparr>"
    by (simp add: task_page_def example_defs)
  show ?thesis
    using wf q locator_returns_unique_task [OF wf q d, of "[]"] by simp
qed

text \<open>
  C3. On a well-formed page whose backward walk visits a \<^verbatim>\<open>ParallelStateFailed\<close> event
  before any \<^verbatim>\<open>TaskStateEntered\<close> event qualifies, and after it a
  \<^verbatim>\<open>ParallelStateEntered\<close> event, the locator returns the name and the input of the first
  \<^verbatim>\<open>ParallelStateEntered\<close> event \<open>p\<close> that follows the failure in the walk: the parallel
  state, whatever tasks the walk visits between the two.
\<close>

theorem locator_returns_parallel_state:
  assumes "well_formed_page page"
    and "qualifying_tasks (walk_order page) = []"
    and "after_parallel_failure (walk_order page) = f # inside"
    and "dropWhile (\<lambda>e. \<not> is_type ''ParallelStateEntered'' e) inside = p # before"
    and "stateEnteredEventDetails p = Some \<lparr>name = Some n, input = Some inp\<rparr>"
  shows "parse_failure_history (Inr page # rest) = Some (Inr (Some (n, inp)))"
proof -
  have "scan_visited False (walk_order page) = scan_visited True inside"
    using assms(2,3) by (rule scan_reaches_parallel_failure)
  also have "\<dots> = returned (state_entered p)"
    using assms(4) by (rule scan_inside_parallel)
  also have "\<dots> = Returned n inp"
    using assms(5) by (simp add: returned_def state_entered_def)
  finally show ?thesis
    using first_page [OF assms(1), of rest] by simp
qed

theorem locator_returns_parallel_state_witness:
  "well_formed_page parallel_page
   \<and> qualifying_tasks (walk_order parallel_page) = []
   \<and> after_parallel_failure (walk_order parallel_page) = parallel_page ! 1 # drop 2 parallel_page
   \<and> event_type (parallel_page ! 3) = ''TaskStateEntered''
   \<and> parse_failure_history [Inr parallel_page] = Some (Inr (Some (''Fanout'', ''{\"all\": true}'')))"
proof -
  have wf: "well_formed_page parallel_page"
    by (simp add: parallel_page_def example_defs page_defs)
  have w: "walk_order parallel_page = parallel_page"
    by (simp add: walk_order_def parallel_page_def example_defs py_index_def list_position_def)
  have q: "qualifying_tasks (walk_order parallel_page) = []"
    unfolding w by (simp add: qualifying_tasks_def parallel_page_def example_defs is_type_def)
  have a: "after_parallel_failure (walk_order parallel_page)
           = parallel_page ! 1 # drop 2 parallel_page"
    unfolding w by (simp add: after_parallel_failure_def parallel_page_def example_defs is_type_def)
  have d: "dropWhile (\<lambda>e. \<not> is_type ''ParallelStateEntered'' e) (drop 2 parallel_page)
           = parallel_page ! 5 # drop 6 parallel_page"
    by (simp add: parallel_page_def example_defs is_type_def)
  have s: "stateEnteredEventDetails (parallel_page ! 5)
           = Some \<lparr>name = Some ''Fanout'', input = Some ''{\"all\": true}''\<rparr>"
    by (simp add: parallel_page_def example_defs)
  have t: "event_type (parallel_page ! 3) = ''TaskStateEntered''"
    by (simp add: parallel_page_def example_defs)
  show ?thesis
    using wf q a t locator_returns_parallel_state [OF wf q a d s, of "[]"] by simp
qed

text \<open>
  C7, as the code has it. When the backward walk of a well-formed page reaches the id 0 and
  no visited event qualifies (no \<^verbatim>\<open>TaskStateEntered\<close> event before a
  \<^verbatim>\<open>ParallelStateFailed\<close> one, no \<^verbatim>\<open>ParallelStateEntered\<close> event after one), the locator
  raises nothing: it goes on with the pages that follow, carrying the flag, and with no page
  left it ends without a \<^verbatim>\<open>return\<close>, that is it returns \<^verbatim>\<open>None\<close>.
\<close>

theorem locator_exhausted_returns_none:
  assumes "well_formed_page page"
    and "qualifying_tasks (walk_order page) = []"
    and "filter (is_type ''ParallelStateEntered'') (after_parallel_failure (walk_order page)) = []"
  shows "parse_failure_history [Inr page] = Some (Inr None)
         \<and> parse_failure_history (Inr page # rest)
             = for_failed_events (list_ex (is_type ''ParallelStateFailed'') (walk_order page)) rest"
proof -
  have "scan_visited False (walk_order page)
        = Exhausted (list_ex (is_type ''ParallelStateFailed'') (walk_order page))"
    using assms(2,3) by (rule scan_exhausted)
  then show ?thesis
    using first_page [OF assms(1), of rest] first_page [OF assms(1), of "[]"] by simp
qed

theorem locator_exhausted_returns_none_witness:
  "well_formed_page bare_page
   \<and> qualifying_tasks (walk_order bare_page) = []
   \<and> filter (is_type ''ParallelStateEntered'') (after_parallel_failure (walk_order bare_page)) = []
   \<and> parse_failure_history [Inr bare_page] = Some (Inr None)
   \<and> parse_failure_history [Inr bare_page, Inr []] = Some (Inl NoFailedEvents)"
proof -
  have wf: "well_formed_page bare_page"
    by (simp add: bare_page_def example_defs page_defs)
  have w: "walk_order bare_page = bare_page"
    by (simp add: walk_order_def bare_page_def example_defs py_index_def list_position_def)
  have q: "qualifying_tasks (walk_order bare_page) = []"
    unfolding w by (simp add: qualifying_tasks_def bare_page_def example_defs is_type_def)
  have a: "filter (is_type ''ParallelStateEntered'') (after_parallel_failure (walk_order bare_page)) = []"
    unfolding w by (simp add: after_parallel_failure_def bare_page_def example_defs is_type_def)
  show ?thesis
    using wf q a locator_exhausted_returns_none [OF wf q a, of "[Inr []]"] by simp
qed

text \<open>
  C7 as stated fails: the walk of \<open>bare_page\<close> goes from the failure marker to the start
  event and to the id 0, no event qualifies, and the locator returns \<^verbatim>\<open>None\<close>; no exception
  is raised.
\<close>

theorem locator_exhausted_counterexample:
  "well_formed_page bare_page
   \<and> walk_order bare_page = bare_page
   \<and> qualifying_tasks (walk_order bare_page) = []
   \<and> parse_failure_history [Inr bare_page] = Some (Inr None)"
  by (simp add: parse_failure_history_def walk.simps walk_order_def qualifying_tasks_def
      bare_page_def example_defs page_defs py_index_def list_position_def is_type_def)

subsection \<open>Empty histories\<close>


subsection \<open>The runtime error case of the locator\<close>

text \<open>
  Whatever the history, the branch of the error \<^verbatim>\<open>States.Runtime\<close> ends in an
  exception: a missing cause, a cause of fewer than 14 tokens, or the \<^verbatim>\<open>TypeError\<close> of
  line 59. It never returns a state.
\<close>

lemma runtime_branch_raises:
  assumes "executionFailedEventDetails first = Some details"
    and "error details = Some ''States.Runtime''"
  shows "\<exists>e. parse_failure_history (Inr (first # others) # rest) = Some (Inl e)"
  using assms
  by (simp add: parse_failure_history_def runtime_failure_def py_int_def py_filter_def
      split: option.splits sum.splits)

text \<open>
  C2 at \<open>runtime_page\<close>, a history that failed with \<^verbatim>\<open>States.Runtime\<close>. The 14th
  whitespace-delimited token of the cause is \<^verbatim>\<open>#4).\<close> and its digits are 4, the id of the
  event that entered the state \<^verbatim>\<open>Load\<close>. The comment of lines 52-57 says that the id is
  used to find the name and the input of the failed state; line 59 applies \<^verbatim>\<open>int\<close> to the
  filter object instead of the digits, and the locator raises \<^verbatim>\<open>TypeError\<close> where it
  should return \<^verbatim>\<open>Load\<close> and its input.
\<close>

theorem runtime_branch_type_error:
  "py_index (split_ws runtime_cause) 13 = Inr ''#4).''
   \<and> filter isdigit ''#4).'' = ''4''
   \<and> state_entered (runtime_page ! 2) = Inr (''Load'', ''{\"n\": 2}'')
   \<and> event_id (runtime_page ! 2) = 4
   \<and> parse_failure_history [Inr runtime_page] = Some (Inl TypeError)"
  by (simp add: parse_failure_history_def runtime_failure_def py_int_def py_filter_def
      state_entered_def runtime_page_def runtime_cause_def example_defs
      py_index_def list_position_def split_ws_def isspace_def isdigit_def)

subsection \<open>Dictionaries\<close>

lemma map_of_dict_set:
  "map_of (dict_set d k v) k' = (if k' = k then Some v else map_of d k')"
  by (induction d) auto

lemma keys_dict_set_present:
  "k \<in> fst ` set d \<Longrightarrow> map fst (dict_set d k v) = map fst d"
  by (induction d) force+

lemma dict_set_absent:
  "k \<notin> fst ` set d \<Longrightarrow> dict_set d k v = d @ [(k, v)]"
  by (induction d) auto

lemma getitem_dict:
  assumes "getitem obj k = Inr v"
  obtains d where "obj = JObj d" and "map_of d k = Some v"
  using assms by (cases obj) (auto split: option.splits)

subsection \<open>The resume graph builder\<close>

lemma add_go_to_state_result:
  assumes "getitem state_machine ''StartAt'' = Inr s"
    and "getitem state_machine ''States'' = Inr (JObj states)"
  obtains top where "state_machine = JObj top"
    and "add_go_to_state f state_machine =
           Inr (JObj (dict_set
                        (dict_set top ''States''
                           (JObj (dict_set states ''GoToState'' (go_to_state s f))))
                        ''StartAt'' (JStr ''GoToState'')))"
proof -
  from assms(1) obtain top where top: "state_machine = JObj top"
    by (rule getitem_dict)
  have "add_go_to_state f state_machine =
           Inr (JObj (dict_set
                        (dict_set top ''States''
                           (JObj (dict_set states ''GoToState'' (go_to_state s f))))
                        ''StartAt'' (JStr ''GoToState'')))"
    using assms unfolding top add_go_to_state_def and_then_def by simp
  with top show ?thesis by (rule that)
qed

lemma injected_next_go_to_state:
  "and_then (getitem (go_to_state s f) ''Choices'') (\<lambda>choices.
     and_then (getindex choices 0) (\<lambda>choice. getitem choice ''Next'')) = Inr s"
  by (simp add: go_to_state_def and_then_def py_index_def list_position_def)

text \<open>
  C4. For the source definition \<^verbatim>\<open>{"StartAt": "A", "States": {"A": a, "B": b}}\<close>, with
  any states \<open>a\<close> and \<open>b\<close>, and the failed step \<^verbatim>\<open>B\<close>, the mutated definition starts at
  \<^verbatim>\<open>GoToState\<close>, holds under \<^verbatim>\<open>GoToState\<close> the choice state that goes to \<^verbatim>\<open>A\<close> when
  \<^verbatim>\<open>$.resuming\<close> is false and to \<^verbatim>\<open>B\<close> by default, and keeps \<open>a\<close> and \<open>b\<close> as they were.
\<close>

theorem add_go_to_state_example:
  "add_go_to_state ''B''
     (JObj [(''StartAt'', JStr ''A''), (''States'', JObj [(''A'', a), (''B'', b)])])
   = Inr (JObj
       [(''StartAt'', JStr ''GoToState''),
        (''States'',
         JObj [(''A'', a),
               (''B'', b),
               (''GoToState'',
                JObj [(''Type'', JStr ''Choice''),
                      (''Choices'',
                       JList [JObj [(''Variable'', JStr ''$.resuming''),
                                    (''BooleanEquals'', JBool False),
                                    (''Next'', JStr ''A'')]]),
                      (''Default'', JStr ''B'')])])])"
  by (simp add: add_go_to_state_def and_then_def go_to_state_def)

text \<open>
  The builder as a whole: when the service returns the definition and the document parses,
  the one definition that the builder sends to \<^verbatim>\<open>create_state_machine\<close> is the mutated one,
  under the name of the source followed by \<^verbatim>\<open>-resumeState-\<close> and the time, with the role of
  the source.
\<close>

lemma attach_go_to_state_sends:
  assumes "describe_state_machine client arn = Inr response"
    and "loads json (definition_text response) = Inr state_machine"
    and "add_go_to_state failed_state_name state_machine = Inr state_machine'"
  shows "snd (attach_go_to_state client json date_time failed_state_name arn sent)
         = sent @ [DescribeStateMachine arn,
                   CreateStateMachine (machine_name response @ ''-resumeState-'' @ date_time)
                     (dumps json state_machine') (roleArn response)]"
  using assms by (simp add: attach_go_to_state_def Let_def split: sum.splits)

text \<open>
  C5 as stated fails: on a definition that already starts at \<^verbatim>\<open>GoToState\<close> (one that an
  earlier run of the builder produced) the \<^verbatim>\<open>Next\<close> of the injected state is
  \<^verbatim>\<open>GoToState\<close>, which is the new \<^verbatim>\<open>StartAt\<close> too.
\<close>

theorem injected_next_counterexample:
  "getitem resumed_definition ''StartAt'' = Inr (JStr ''GoToState'')
   \<and> add_go_to_state ''A'' resumed_definition
       = Inr (JObj [(''StartAt'', JStr ''GoToState''),
                    (''States'',
                     JObj [(''A'', pass_state ''B''),
                           (''B'', JObj [(''Type'', JStr ''Succeed'')]),
                           (''GoToState'', go_to_state (JStr ''GoToState'') ''A'')])])
   \<and> injected_next
        (JObj [(''StartAt'', JStr ''GoToState''),
               (''States'',
                JObj [(''A'', pass_state ''B''),
                      (''B'', JObj [(''Type'', JStr ''Succeed'')]),
                      (''GoToState'', go_to_state (JStr ''GoToState'') ''A'')])])
       = Inr (JStr ''GoToState'')"
  by (simp add: resumed_definition_def add_go_to_state_def injected_next_def and_then_def
      go_to_state_def py_index_def list_position_def)

text \<open>
  C5, as the code has it. For every failed step name and every source definition that the
  builder can mutate (a dict with a key \<^verbatim>\<open>StartAt\<close> and a dict under \<^verbatim>\<open>States\<close>), the
  \<^verbatim>\<open>Next\<close> of the injected state is the \<^verbatim>\<open>StartAt\<close> of the source as it was before the
  mutation, and the new \<^verbatim>\<open>StartAt\<close> is \<^verbatim>\<open>GoToState\<close>; the two differ exactly when the source
  did not start at \<^verbatim>\<open>GoToState\<close>.
\<close>

theorem injected_next_is_original_start:
  assumes "getitem state_machine ''StartAt'' = Inr s"
    and "getitem state_machine ''States'' = Inr (JObj states)"
  shows "\<exists>d. add_go_to_state f state_machine = Inr d
             \<and> injected_next d = Inr s
             \<and> getitem d ''StartAt'' = Inr (JStr ''GoToState'')
             \<and> (injected_next d \<noteq> getitem d ''StartAt'' \<longleftrightarrow> s \<noteq> JStr ''GoToState'')"
proof -
  from assms obtain top where
    r: "add_go_to_state f state_machine =
           Inr (JObj (dict_set
                        (dict_set top ''States''
                           (JObj (dict_set states ''GoToState'' (go_to_state s f))))
                        ''StartAt'' (JStr ''GoToState'')))"
    by (rule add_go_to_state_result)
  let ?d = "JObj (dict_set
                        (dict_set top ''States''
                           (JObj (dict_set states ''GoToState'' (go_to_state s f))))
                        ''StartAt'' (JStr ''GoToState''))"
  have start: "getitem ?d ''StartAt'' = Inr (JStr ''GoToState'')"
    by (simp add: map_of_dict_set)
  have nxt: "injected_next ?d = Inr s"
    using injected_next_go_to_state [of s f]
    by (simp add: injected_next_def and_then_def map_of_dict_set)
  from r start nxt show ?thesis by auto
qed

theorem injected_next_is_original_start_witness:
  "getitem plain_definition ''StartAt'' = Inr (JStr ''A'')
   \<and> (\<exists>d. add_go_to_state ''B'' plain_definition = Inr d
          \<and> injected_next d = Inr (JStr ''A'')
          \<and> getitem d ''StartAt'' = Inr (JStr ''GoToState'')
          \<and> injected_next d \<noteq> getitem d ''StartAt'')"
proof -
  have a: "getitem plain_definition ''StartAt'' = Inr (JStr ''A'')"
    by (simp add: plain_definition_def)
  have b: "getitem plain_definition ''States''
           = Inr (JObj [(''A'', pass_state ''B''), (''B'', JObj [(''Type'', JStr ''Succeed'')])])"
    by (simp add: plain_definition_def)
  show ?thesis
    using a injected_next_is_original_start [OF a b, of "''B''"] by auto
qed

text \<open>
  C10. When \<^verbatim>\<open>States\<close> of the source definition already has the key \<^verbatim>\<open>GoToState\<close>, the
  builder raises nothing and stores the synthesized state under that key in place of the
  old one; \<^verbatim>\<open>States\<close> has the same keys in the same order as before, and the state under
  every other key is the one that was there.
\<close>

theorem go_to_state_overwrites:
  assumes "getitem state_machine ''StartAt'' = Inr s"
    and "getitem state_machine ''States'' = Inr (JObj states)"
    and "''GoToState'' \<in> fst ` set states"
  shows "\<exists>d states'. add_go_to_state f state_machine = Inr d
             \<and> getitem d ''States'' = Inr (JObj states')
             \<and> map_of states' ''GoToState'' = Some (go_to_state s f)
             \<and> map fst states' = map fst states
             \<and> (\<forall>k. k \<noteq> ''GoToState'' \<longrightarrow> map_of states' k = map_of states k)"
proof -
  from assms(1,2) obtain top where
    r: "add_go_to_state f state_machine =
           Inr (JObj (dict_set
                        (dict_set top ''States''
                           (JObj (dict_set states ''GoToState'' (go_to_state s f))))
                        ''StartAt'' (JStr ''GoToState'')))"
    by (rule add_go_to_state_result)
  let ?states = "dict_set states ''GoToState'' (go_to_state s f)"
  let ?d = "JObj (dict_set (dict_set top ''States'' (JObj ?states))
                    ''StartAt'' (JStr ''GoToState''))"
  have "getitem ?d ''States'' = Inr (JObj ?states)"
    by (simp add: map_of_dict_set)
  moreover have "map_of ?states ''GoToState'' = Some (go_to_state s f)"
    by (simp add: map_of_dict_set)
  moreover have "map fst ?states = map fst states"
    using assms(3) by (rule keys_dict_set_present)
  moreover have "\<forall>k. k \<noteq> ''GoToState'' \<longrightarrow> map_of ?states k = map_of states k"
    by (simp add: map_of_dict_set)
  ultimately show ?thesis
    using r by blast
qed

theorem go_to_state_overwrites_witness:
  "''GoToState'' \<in> fst ` set [(''A'', pass_state ''B''), (''B'', JObj [(''Type'', JStr ''Succeed'')]),
                             (''GoToState'', go_to_state (JStr ''A'') ''B'')]
   \<and> (\<exists>d states'. add_go_to_state ''A'' resumed_definition = Inr d
          \<and> getitem d ''States'' = Inr (JObj states')
          \<and> map_of states' ''GoToState'' = Some (go_to_state (JStr ''GoToState'') ''A'')
          \<and> map fst states' = [''A'', ''B'', ''GoToState'']
          \<and> map_of states' ''A'' = Some (pass_state ''B'')
          \<and> map_of states' ''B'' = Some (JObj [(''Type'', JStr ''Succeed'')]))"
proof -
  let ?states = "[(''A'', pass_state ''B''), (''B'', JObj [(''Type'', JStr ''Succeed'')]),
                  (''GoToState'', go_to_state (JStr ''A'') ''B'')]"
  have a: "getitem resumed_definition ''StartAt'' = Inr (JStr ''GoToState'')"
    by (simp add: resumed_definition_def)
  have b: "getitem resumed_definition ''States'' = Inr (JObj ?states)"
    by (simp add: resumed_definition_def)
  have c: "''GoToState'' \<in> fst ` set ?states"
    by simp
  from go_to_state_overwrites [OF a b c, of "''A''"] obtain d states' where
    *: "add_go_to_state ''A'' resumed_definition = Inr d"
       "getitem d ''States'' = Inr (JObj states')"
       "map_of states' ''GoToState'' = Some (go_to_state (JStr ''GoToState'') ''A'')"
       "map fst states' = map fst ?states"
       "\<forall>k. k \<noteq> ''GoToState'' \<longrightarrow> map_of states' k = map_of ?states k"
    by blast
  from *(5) have "map_of states' ''A'' = Some (pass_state ''B'')"
    and "map_of states' ''B'' = Some (JObj [(''Type'', JStr ''Succeed'')])"
    by simp_all
  with * c show ?thesis by auto
qed

subsection \<open>The execution trigger\<close>

text \<open>
  C9. For every machine identifier the trigger sends exactly one request, a start of an
  execution of that machine whose input is the text \<^verbatim>\<open>{"resuming": true}\<close>; and when the
  start call raises, the trigger raises the exception of line 122 that carries the text of
  the cause, instead of returning.
\<close>

theorem start_execution_resuming:
  "snd (start_new_state_machine_execution client new_machine_arn sent)
     = sent @ [StartExecution new_machine_arn ''{\"resuming\": true}'']
   \<and> (start_execution client new_machine_arn ''{\"resuming\": true}'' = Inl msg \<longrightarrow>
        fst (start_new_state_machine_execution client new_machine_arn sent)
          = Inl (FailedToStart msg))"
  by (simp add: start_new_state_machine_execution_def Let_def split: sum.splits)

theorem start_execution_resuming_witness:
  "start_execution refusing_client ''arn:machine'' ''{\"resuming\": true}'' = Inl ''AccessDenied''
   \<and> start_new_state_machine_execution refusing_client ''arn:machine'' []
       = (Inl (FailedToStart ''AccessDenied''),
          [StartExecution ''arn:machine'' ''{\"resuming\": true}''])"
proof -
  have a: "start_execution refusing_client ''arn:machine'' ''{\"resuming\": true}''
           = Inl ''AccessDenied''"
    by (simp add: refusing_client_def)
  show ?thesis
    using a start_execution_resuming [of refusing_client "''arn:machine''" "[]" "''AccessDenied''"]
    by (simp add: prod_eq_iff)
qed

end
